theory Spec2Isabelle
  imports Complex_Main "HOL-Library.Multiset" "HOL-Library.Sublist"
begin

section \<open>Notebook 1: duplicate handling and summary statistics on a pandas frame\<close>

text \<open>
  A pandas frame is a sequence of rows, each carrying its index label. Every operation of
  the first notebook compares rows by their cell values only; the label travels with the
  row, so it tells which of several equal rows survived. A missing cell (NaN) is
  \<open>None\<close>; pandas treats two missing cells as equal when it looks for duplicates, as
  HOL equality on \<open>option\<close> does.
\<close>

type_synonym 'r frame = "(nat \<times> 'r) list"

text \<open>
  \<^verbatim>\<open>duplicated(keep='first')\<close> scans the rows in order with a table of the values seen
  so far and marks a row when its value is already in the table.
\<close>

fun duplicated_first :: "'r set \<Rightarrow> 'r list \<Rightarrow> bool list" where
  "duplicated_first seen [] = []"
| "duplicated_first seen (x # xs) = (x \<in> seen) # duplicated_first (insert x seen) xs"

text \<open>\<^verbatim>\<open>keep='last'\<close> is the same scan from the end.\<close>

definition duplicated_last :: "'r list \<Rightarrow> bool list" where
  "duplicated_last xs = rev (duplicated_first {} (rev xs))"

text \<open>
  \<^verbatim>\<open>keep=False\<close> marks every occurrence of a repeated value: a row is marked when
  an equal row stands before it or after it.
\<close>

definition duplicated_all :: "'r list \<Rightarrow> bool list" where
  "duplicated_all xs = map2 (\<or>) (duplicated_first {} xs) (duplicated_last xs)"

text \<open>Boolean indexing \<^verbatim>\<open>df[mask]\<close> keeps the rows whose mask entry is True.\<close>

definition boolean_index :: "'r frame \<Rightarrow> bool list \<Rightarrow> 'r frame" where
  "boolean_index df flags = map fst (filter snd (zip df flags))"

text \<open>\<^verbatim>\<open>all_duplicates = df[df.duplicated(keep=False)]\<close>\<close>

definition all_duplicates :: "'r frame \<Rightarrow> 'r frame" where
  "all_duplicates df = boolean_index df (duplicated_all (map snd df))"

text \<open>
  \<^verbatim>\<open>df.drop_duplicates(inplace=True)\<close> keeps the rows that
  \<^verbatim>\<open>duplicated(keep='first')\<close> leaves unmarked.
\<close>

definition drop_duplicates :: "'r frame \<Rightarrow> 'r frame" where
  "drop_duplicates df = boolean_index df (map Not (duplicated_first {} (map snd df)))"

text \<open>The same selection when the scan starts from a table that already holds \<open>seen\<close>.\<close>

abbreviation kept_first :: "'r set \<Rightarrow> 'r frame \<Rightarrow> 'r frame" where
  "kept_first seen df \<equiv> boolean_index df (map Not (duplicated_first seen (map snd df)))"

text \<open>
  The deduplication cell: the number it prints (\<^verbatim>\<open>all_duplicates.shape[0]\<close>) and the
  frame that \<^verbatim>\<open>df\<close> holds afterwards.
\<close>

definition dedup_cell :: "'r frame \<Rightarrow> nat \<times> 'r frame" where
  "dedup_cell df = (length (all_duplicates df), drop_duplicates df)"

subsection \<open>Summary statistics of a column\<close>

text \<open>
  A column is read off a frame by its accessor. The pandas reductions skip missing cells.
\<close>

definition dropna :: "'a option list \<Rightarrow> 'a list" where
  "dropna c = List.map_filter (\<lambda>x. x) c"

text \<open>\<^verbatim>\<open>Series.mean()\<close>: the sum over the count of the non-missing cells, NaN when there are none.\<close>

definition series_mean :: "real option list \<Rightarrow> real option" where
  "series_mean c =
     (let vs = dropna c in if vs = [] then None else Some (sum_list vs / real (length vs)))"

text \<open>
  \<^verbatim>\<open>Series.median()\<close>: the middle of the sorted non-missing cells, the average of the two
  middle ones when their number is even, NaN when there are none.
\<close>

definition series_median :: "real option list \<Rightarrow> real option" where
  "series_median c =
     (let vs = sort (dropna c); n = length vs in
      if n = 0 then None
      else if odd n then Some (vs ! (n div 2))
      else Some ((vs ! (n div 2 - 1) + vs ! (n div 2)) / 2))"

text \<open>
  \<^verbatim>\<open>Series.mode()\<close>: every non-missing value whose count is the highest, each once, in
  ascending order; empty when there is no non-missing cell.
\<close>

definition series_mode :: "real option list \<Rightarrow> real list" where
  "series_mode c =
     (let vs = dropna c in
      sort (remdups (filter (\<lambda>v. count_list vs v = Max (set (map (count_list vs) vs))) vs)))"

text \<open>
  \<^verbatim>\<open>compute_stats(column)\<close>; the mode is
  \<^verbatim>\<open>mode_series.iloc[0] if not mode_series.empty else np.nan\<close>.
\<close>

definition compute_stats ::
  "'r frame \<Rightarrow> ('r \<Rightarrow> real option) \<Rightarrow> real option \<times> real option \<times> real option" where
  "compute_stats df column =
     (let c = map (column \<circ> snd) df;
          mean_val = series_mean c;
          median_val = series_median c;
          mode_series = series_mode c;
          mode_val = (if mode_series \<noteq> [] then Some (hd mode_series) else None)
      in (mean_val, median_val, mode_val))"

text \<open>
  The tie-break as the specification words it, for comparison: the first value met in scan
  order among those with the highest count.
\<close>

definition spec_mode_first_encountered :: "real option list \<Rightarrow> real option" where
  "spec_mode_first_encountered c =
     (let vs = dropna c in
      find (\<lambda>v. count_list vs v = Max (set (map (count_list vs) vs))) vs)"

section \<open>Notebook 2: the Spark pipeline\<close>

text \<open>
  Every column of the schema is nullable, so a cell is an \<open>option\<close>. The float columns are
  modelled as reals: arithmetic is exact here, rounding is outside the model. A Dataset is
  the list of its rows in the order in which a single partition scans them.
\<close>

record row =
  timestamp :: "int option"
  soil_moisture :: "real option"
  soil_water_content :: "real option"
  carbon_percent :: "real option"
  nitrogen_percent :: "real option"
  atmospheric_humidity :: "real option"
  temperature :: "real option"
  pH :: "real option"

subsection \<open>Column expressions: SQL's three-valued logic\<close>

text \<open>An operator applied to a null operand is null.\<close>

definition sql_op :: "('a \<Rightarrow> 'b \<Rightarrow> 'c) \<Rightarrow> 'a option \<Rightarrow> 'b option \<Rightarrow> 'c option" where
  "sql_op f a b =
     (case a of None \<Rightarrow> None | Some x \<Rightarrow> (case b of None \<Rightarrow> None | Some y \<Rightarrow> Some (f x y)))"

text \<open>
  Division depends on the session's ANSI mode, which the notebook neither sets nor fixes
  through a Spark version. With ANSI mode off, division by zero is null as well.
\<close>

definition sql_div :: "real option \<Rightarrow> real option \<Rightarrow> real option" where
  "sql_div a b =
     (case a of None \<Rightarrow> None
      | Some x \<Rightarrow> (case b of None \<Rightarrow> None | Some y \<Rightarrow> if y = 0 then None else Some (x / y)))"

text \<open>
  With ANSI mode on, a null operand still gives null, and dividing a value by zero raises
  Spark's \<^verbatim>\<open>DIVIDE_BY_ZERO\<close> error.
\<close>

datatype spark_error = DIVIDE_BY_ZERO

definition sql_div_ansi :: "real option \<Rightarrow> real option \<Rightarrow> spark_error + real option" where
  "sql_div_ansi a b =
     (case b of None \<Rightarrow> Inr None
      | Some y \<Rightarrow> (case a of None \<Rightarrow> Inr None
          | Some x \<Rightarrow> if y = 0 then Inl DIVIDE_BY_ZERO else Inr (Some (x / y))))"

definition sql_div_mode :: "bool \<Rightarrow> real option \<Rightarrow> real option \<Rightarrow> spark_error + real option" where
  "sql_div_mode ansi a b = (if ansi then sql_div_ansi a b else Inr (sql_div a b))"

text \<open>\<^verbatim>\<open>&\<close>: false when either side is false, true when both are true, null otherwise.\<close>

definition sql_and :: "bool option \<Rightarrow> bool option \<Rightarrow> bool option" where
  "sql_and a b =
     (if a = Some False \<or> b = Some False then Some False
      else if a = Some True \<and> b = Some True then Some True
      else None)"

text \<open>\<^verbatim>\<open>col.between(lo, hi)\<close> is \<^verbatim>\<open>(col >= lo) & (col <= hi)\<close>.\<close>

definition between :: "real option \<Rightarrow> real \<Rightarrow> real \<Rightarrow> bool option" where
  "between v lo hi = sql_and (sql_op (\<ge>) v (Some lo)) (sql_op (\<le>) v (Some hi))"

text \<open>\<^verbatim>\<open>when(c, a).otherwise(b)\<close> takes \<open>a\<close> only where the condition is true.\<close>

definition when_otherwise :: "bool option \<Rightarrow> 'a \<Rightarrow> 'a \<Rightarrow> 'a" where
  "when_otherwise c a b = (if c = Some True then a else b)"

definition isNull :: "'a option \<Rightarrow> bool option" where
  "isNull v = Some (v = None)"

text \<open>\<^verbatim>\<open>DataFrame.filter\<close> keeps the rows on which the condition is true; null drops the row.\<close>

definition filter_rows :: "('r \<Rightarrow> bool option) \<Rightarrow> 'r list \<Rightarrow> 'r list" where
  "filter_rows cond d = filter (\<lambda>r. cond r = Some True) d"

text \<open>
  When the condition can raise, materialising the filtered Dataset evaluates it on the rows
  in scan order; an error on any row ends the job and no Dataset is produced.
\<close>

fun filter_rows_mode :: "('r \<Rightarrow> spark_error + bool option) \<Rightarrow> 'r list \<Rightarrow> spark_error + 'r list" where
  "filter_rows_mode cond [] = Inr []"
| "filter_rows_mode cond (r # d) =
     (case cond r of
        Inl e \<Rightarrow> Inl e
      | Inr b \<Rightarrow>
          (case filter_rows_mode cond d of
             Inl e \<Rightarrow> Inl e
           | Inr out \<Rightarrow> Inr (if b = Some True then r # out else out)))"

subsection \<open>Seeded sampling and aggregates\<close>

text \<open>
  The pseudo-random generator is a parameter: \<open>rng seed i\<close> is the number drawn for the
  \<open>i\<close>-th row scanned under \<open>seed\<close>. A Bernoulli cell sampler keeps the rows whose draw
  falls in \<open>[lb, ub)\<close>; \<^verbatim>\<open>sample(fraction, seed)\<close> is the cell \<open>[0, fraction)\<close>.
\<close>

definition bernoulli_cell :: "(nat \<Rightarrow> real) \<Rightarrow> real \<Rightarrow> real \<Rightarrow> 'r list \<Rightarrow> 'r list" where
  "bernoulli_cell u lb ub xs =
     map fst (filter (\<lambda>(r, x). lb \<le> x \<and> x < ub) (zip xs (map u [0..<length xs])))"

definition sample :: "(nat \<Rightarrow> nat \<Rightarrow> real) \<Rightarrow> real \<Rightarrow> nat \<Rightarrow> 'r list \<Rightarrow> 'r list" where
  "sample rng fraction seed xs = bernoulli_cell (rng seed) 0 fraction xs"

text \<open>\<^verbatim>\<open>mean\<close> averages the non-null cells and is null when there are none.\<close>

definition mean :: "real option list \<Rightarrow> real option" where
  "mean c = (let vs = dropna c in if vs = [] then None else Some (sum_list vs / real (length vs)))"

text \<open>
  \<^verbatim>\<open>stddev\<close> is the sample standard deviation of the non-null cells (divisor \<open>n - 1\<close>),
  null when fewer than two cells are left.
\<close>

definition stddev :: "real option list \<Rightarrow> real option" where
  "stddev c =
     (let vs = dropna c; n = length vs in
      if n < 2 then None
      else let m = sum_list vs / real n in
        Some (sqrt (sum_list (map (\<lambda>x. (x - m)\<^sup>2) vs) / real (n - 1))))"

subsection \<open>Task 1: ingestion with the range filter\<close>

text \<open>The condition handed to \<^verbatim>\<open>filter\<close>: seven \<^verbatim>\<open>between\<close> tests joined by \<^verbatim>\<open>&\<close>.\<close>

definition range_cond :: "row \<Rightarrow> bool option" where
  "range_cond r =
     sql_and (sql_and (sql_and (sql_and (sql_and (sql_and
       (between (soil_moisture r) 0 100)
       (between (soil_water_content r) 0 100))
       (between (carbon_percent r) 0 10))
       (between (nitrogen_percent r) 0 5))
       (between (atmospheric_humidity r) 0 100))
       (between (temperature r) 0 40))
       (between (pH r) 4 9)"

text \<open>The argument is the rows as the CSV reader has parsed them against the schema.\<close>

definition df :: "row list \<Rightarrow> row list" where
  "df parsed = filter_rows range_cond parsed"

subsection \<open>Task 2: anomaly filtering\<close>

definition stats_row :: "(nat \<Rightarrow> nat \<Rightarrow> real) \<Rightarrow> row list \<Rightarrow> real option \<times> real option" where
  "stats_row rng d =
     (let s = sample rng 0.001 42 d in (mean (map soil_moisture s), stddev (map soil_moisture s)))"

definition mean_moisture :: "(nat \<Rightarrow> nat \<Rightarrow> real) \<Rightarrow> row list \<Rightarrow> real option" where
  "mean_moisture rng d = fst (stats_row rng d)"

definition stddev_moisture :: "(nat \<Rightarrow> nat \<Rightarrow> real) \<Rightarrow> row list \<Rightarrow> real option" where
  "stddev_moisture rng d = snd (stats_row rng d)"

definition df_clean :: "(nat \<Rightarrow> nat \<Rightarrow> real) \<Rightarrow> row list \<Rightarrow> row list" where
  "df_clean rng d = filter_rows (\<lambda>r.
     between (sql_div (sql_op (-) (soil_moisture r) (mean_moisture rng d)) (stddev_moisture rng d))
       (- 3) 3) d"

text \<open>
  \<open>df_clean\<close> above is the filter with ANSI mode off. The same cell under either mode:
  the z-score condition of one row, and the filter over the Dataset.
\<close>

definition zscore_cond :: "bool \<Rightarrow> real option \<Rightarrow> real option \<Rightarrow> row \<Rightarrow> spark_error + bool option" where
  "zscore_cond ansi m s r =
     (case sql_div_mode ansi (sql_op (-) (soil_moisture r) m) s of
        Inl e \<Rightarrow> Inl e
      | Inr z \<Rightarrow> Inr (between z (- 3) 3))"

definition df_clean_mode :: "bool \<Rightarrow> (nat \<Rightarrow> nat \<Rightarrow> real) \<Rightarrow> row list \<Rightarrow> spark_error + row list" where
  "df_clean_mode ansi rng d =
     filter_rows_mode (zscore_cond ansi (mean_moisture rng d) (stddev_moisture rng d)) d"

subsection \<open>Task 3: the compound predicate filter\<close>

definition filtered_df :: "row list \<Rightarrow> row list" where
  "filtered_df d = filter_rows (\<lambda>r.
     sql_and (sql_op (>) (soil_moisture r) (Some 80)) (sql_op (<) (pH r) (Some 5))) d"

subsection \<open>Task 5: interpolation and the train/test split\<close>

record row_interp = row +
  carbon_percent_interp :: "real option"

definition df_interp :: "row list \<Rightarrow> row_interp list" where
  "df_interp d = map (\<lambda>r.
     \<lparr>timestamp = timestamp r, soil_moisture = soil_moisture r,
      soil_water_content = soil_water_content r, carbon_percent = carbon_percent r,
      nitrogen_percent = nitrogen_percent r, atmospheric_humidity = atmospheric_humidity r,
      temperature = temperature r, pH = pH r,
      carbon_percent_interp =
        when_otherwise (isNull (carbon_percent r))
          (sql_op (*) (soil_moisture r) (Some 0.05)) (carbon_percent r)\<rparr>) d"

text \<open>
  \<^verbatim>\<open>randomSplit(weights, seed)\<close> first sorts the rows of the partition by their
  orderable columns, so that the draws meet the rows in an order that does not depend on
  how the partition was produced; \<open>key\<close> gives a row's sort key. It then normalises the
  weights, takes their running sums as cell bounds and runs one Bernoulli cell sampler per
  pair of neighbouring bounds over the sorted rows, each with the same seed and so the same
  draws.
\<close>

fun cum_weights :: "real \<Rightarrow> real list \<Rightarrow> real list" where
  "cum_weights acc [] = [acc]"
| "cum_weights acc (w # ws) = acc # cum_weights (acc + w) ws"

definition randomSplit ::
  "(nat \<Rightarrow> nat \<Rightarrow> real) \<Rightarrow> real list \<Rightarrow> nat \<Rightarrow> ('r \<Rightarrow> 'k::linorder) \<Rightarrow> 'r list \<Rightarrow> 'r list list" where
  "randomSplit rng weights seed key xs =
     (let sorted_rows = sort_key key xs;
          s = sum_list weights;
          cum = cum_weights 0 (map (\<lambda>w. w / s) weights)
      in map (\<lambda>(lb, ub). bernoulli_cell (rng seed) lb ub sorted_rows) (zip cum (tl cum)))"

text \<open>\<^verbatim>\<open>train_df, test_df = df_vector.randomSplit([0.8, 0.2], seed=42)\<close>\<close>

definition train_test ::
  "(nat \<Rightarrow> nat \<Rightarrow> real) \<Rightarrow> ('r \<Rightarrow> 'k::linorder) \<Rightarrow> 'r list \<Rightarrow> 'r list list" where
  "train_test rng key df_vector = randomSplit rng [0.8, 0.2] 42 key df_vector"

section \<open>Sample inputs\<close>

text \<open>Concrete frames, rows and draws on which the theorems below are run.\<close>

definition ex_col :: "real option frame" where
  "ex_col = [(0, Some 2), (1, Some 1)]"

definition ex_row :: "int \<Rightarrow> real \<Rightarrow> real option \<Rightarrow> real \<Rightarrow> row" where
  "ex_row t m c p =
     \<lparr>timestamp = Some t, soil_moisture = Some m, soil_water_content = Some 50,
      carbon_percent = c, nitrogen_percent = Some 2, atmospheric_humidity = Some 50,
      temperature = Some 20, pH = Some p\<rparr>"

definition ex_d :: "row list" where
  "ex_d = [ex_row 1 81 (Some 5) 4, ex_row 2 82 (Some 5) 7, ex_row 3 83 (Some 5) 7,
     ex_row 4 50 (Some 5) 7]"

definition ex_parsed :: "row list" where
  "ex_parsed = ex_d @ [ex_row 5 150 (Some 5) 7, ex_row 6 82 None 7]"


text \<open>Draws that put the first three rows into a 0.001 sample and nothing else.\<close>

definition ex_rng :: "nat \<Rightarrow> nat \<Rightarrow> real" where
  "ex_rng seed i = (if i < 3 then 0 else 1 / 2)"


definition ex_rng_split :: "nat \<Rightarrow> nat \<Rightarrow> real" where
  "ex_rng_split seed i = (if i = 1 then 9 / 10 else 1 / 10)"

section \<open>Properties of the deduplication cell\<close>

subsection \<open>The scan for repeats\<close>

lemma boolean_index_Nil: "boolean_index [] flags = []"
  by (simp add: boolean_index_def)

lemma boolean_index_Cons:
  "boolean_index (p # fr) (b # flags) =
     (if b then p # boolean_index fr flags else boolean_index fr flags)"
  by (simp add: boolean_index_def)

lemma boolean_index_map: "boolean_index fr (map P fr) = filter P fr"
  by (induction fr) (simp_all add: boolean_index_Nil boolean_index_Cons)

lemma kept_first_filter:
  "filter (\<lambda>p. snd p = v) (kept_first seen fr) =
     (if v \<in> seen then [] else take 1 (filter (\<lambda>p. snd p = v) fr))"
  by (induction fr arbitrary: seen) (auto simp: boolean_index_Nil boolean_index_Cons)

lemma kept_first_subseq: "subseq (kept_first seen fr) fr"
  by (induction fr arbitrary: seen) (auto simp: boolean_index_Nil boolean_index_Cons)

lemma kept_first_absorb:
  "seen' \<subseteq> seen \<Longrightarrow> kept_first seen' (kept_first seen fr) = kept_first seen fr"
proof (induction fr arbitrary: seen seen')
  case Nil
  show ?case by (simp add: boolean_index_Nil)
next
  case (Cons p fr)
  show ?case
  proof (cases "snd p \<in> seen")
    case True
    then show ?thesis
      using Cons.IH [OF Cons.prems] by (simp add: boolean_index_Cons insert_absorb)
  next
    case False
    then have "snd p \<notin> seen'"
      using Cons.prems by auto
    moreover have "kept_first (insert (snd p) seen') (kept_first (insert (snd p) seen) fr) =
        kept_first (insert (snd p) seen) fr"
      using Cons.prems by (intro Cons.IH) auto
    ultimately show ?thesis
      using False by (simp add: boolean_index_Cons)
  qed
qed

lemma length_duplicated_first: "length (duplicated_first seen xs) = length xs"
  by (induction xs arbitrary: seen) auto

lemma duplicated_first_map:
  "duplicated_first seen xs = map (\<lambda>i. xs ! i \<in> seen \<union> set (take i xs)) [0..<length xs]"
proof (induction xs arbitrary: seen)
  case Nil
  show ?case by simp
next
  case (Cons x xs)
  have "[0..<length (x # xs)] = 0 # map Suc [0..<length xs]"
    by (simp add: upt_conv_Cons map_Suc_upt del: upt_Suc)
  then show ?case
    using Cons [of "insert x seen"] by (auto simp add: comp_def simp del: upt_Suc)
qed

lemma duplicated_last_map:
  "duplicated_last xs = map (\<lambda>i. xs ! i \<in> set (drop (Suc i) xs)) [0..<length xs]"
proof (rule nth_equalityI)
  show "length (duplicated_last xs) =
      length (map (\<lambda>i. xs ! i \<in> set (drop (Suc i) xs)) [0..<length xs])"
    by (simp add: duplicated_last_def length_duplicated_first)
next
  fix i
  assume "i < length (duplicated_last xs)"
  then have i: "i < length xs"
    by (simp add: duplicated_last_def length_duplicated_first)
  let ?j = "length xs - Suc i"
  have j: "?j < length xs"
    using i by simp
  have "duplicated_last xs ! i = duplicated_first {} (rev xs) ! ?j"
    using i by (simp add: duplicated_last_def rev_nth length_duplicated_first)
  also have "\<dots> = (rev xs ! ?j \<in> set (take ?j (rev xs)))"
    using j by (simp add: duplicated_first_map)
  also have "rev xs ! ?j = xs ! i"
    using i j by (simp add: rev_nth)
  also have "take ?j (rev xs) = rev (drop (Suc i) xs)"
    using i by (simp add: take_rev)
  finally show "duplicated_last xs ! i =
      map (\<lambda>i. xs ! i \<in> set (drop (Suc i) xs)) [0..<length xs] ! i"
    using i by simp
qed

lemma count_ge2_iff:
  assumes "i < length xs"
  shows "(2 \<le> count_list xs (xs ! i)) =
    (xs ! i \<in> set (take i xs) \<or> xs ! i \<in> set (drop (Suc i) xs))"
proof -
  have "xs = take i xs @ xs ! i # drop (Suc i) xs"
    using assms by (rule id_take_nth_drop)
  then have "count_list xs (xs ! i) =
      count_list (take i xs @ xs ! i # drop (Suc i) xs) (xs ! i)"
    by simp
  then have c: "count_list xs (xs ! i) =
      count_list (take i xs) (xs ! i) + 1 + count_list (drop (Suc i) xs) (xs ! i)"
    by (simp only: count_list_append count_list.simps) simp
  have t: "(count_list (take i xs) (xs ! i) = 0) = (xs ! i \<notin> set (take i xs))"
    by (rule count_list_0_iff)
  have d: "(count_list (drop (Suc i) xs) (xs ! i) = 0) = (xs ! i \<notin> set (drop (Suc i) xs))"
    by (rule count_list_0_iff)
  show ?thesis
    using c t d by linarith
qed

lemma map2_same: "map2 h (map f xs) (map g xs) = map (\<lambda>x. h (f x) (g x)) xs"
  by (induction xs) auto

lemma duplicated_all_map: "duplicated_all xs = map (\<lambda>x. 2 \<le> count_list xs x) xs"
proof -
  have "duplicated_all xs =
      map (\<lambda>i. xs ! i \<in> set (take i xs) \<or> xs ! i \<in> set (drop (Suc i) xs)) [0..<length xs]"
    by (simp add: duplicated_all_def duplicated_first_map duplicated_last_map map2_same)
  also have "\<dots> = map (\<lambda>i. 2 \<le> count_list xs (xs ! i)) [0..<length xs]"
    by (rule map_cong) (simp_all add: count_ge2_iff)
  also have "\<dots> = map (\<lambda>x. 2 \<le> count_list xs x) xs"
    by (rule nth_equalityI) simp_all
  finally show ?thesis .
qed

lemma all_duplicates_filter:
  "all_duplicates fr = filter (\<lambda>p. 2 \<le> count_list (map snd fr) (snd p)) fr"
  using boolean_index_map [of fr "\<lambda>p. 2 \<le> count_list (map snd fr) (snd p)"]
  by (simp add: all_duplicates_def duplicated_all_map comp_def)

lemma count_list_map_snd:
  "count_list (map snd fr) v = length (filter (\<lambda>p. snd p = v) fr)"
  by (induction fr) auto

lemma count_kept_first: "count_list (map snd (kept_first {} fr)) v \<le> 1"
  by (simp add: count_list_map_snd kept_first_filter)

lemma all_duplicates_kept_first: "all_duplicates (kept_first {} fr) = []"
proof -
  have "\<not> 2 \<le> count_list (map snd (kept_first {} fr)) v" for v
    using count_kept_first [where fr = fr and v = v] by simp
  then show ?thesis
    by (simp add: all_duplicates_filter)
qed

subsection \<open>The claims on deduplication\<close>

text \<open>
  C4. For every frame, (a) the duplicate count that the cell reports is the number of rows
  whose cell values occur at least twice in the frame, every occurrence counted; (b) the
  frame left by \<open>drop_duplicates\<close> holds, for each row value \<open>v\<close>, exactly the first row
  of the input with that value (and none when the input has none), and its rows stand in
  the input's order.
\<close>

theorem C4_dedup_count_and_first_survivor:
  "fst (dedup_cell fr) = length (filter (\<lambda>p. 2 \<le> count_list (map snd fr) (snd p)) fr)
   \<and> (\<forall>v. filter (\<lambda>p. snd p = v) (snd (dedup_cell fr)) = take 1 (filter (\<lambda>p. snd p = v) fr))
   \<and> subseq (snd (dedup_cell fr)) fr"
proof (intro conjI allI)
  show "fst (dedup_cell fr) = length (filter (\<lambda>p. 2 \<le> count_list (map snd fr) (snd p)) fr)"
    by (simp add: dedup_cell_def all_duplicates_filter)
next
  fix v
  show "filter (\<lambda>p. snd p = v) (snd (dedup_cell fr)) = take 1 (filter (\<lambda>p. snd p = v) fr)"
    using kept_first_filter [where v = v and seen = "{}" and fr = fr] by (simp add: dedup_cell_def drop_duplicates_def)
next
  show "subseq (snd (dedup_cell fr)) fr"
    using kept_first_subseq [where seen = "{}" and fr = fr] by (simp add: dedup_cell_def drop_duplicates_def)
qed

text \<open>
  C5. Running the deduplication on its own output removes nothing: the second run returns
  the frame it was given, and it reports no duplicate.
\<close>

theorem C5_dedup_idempotent:
  "snd (dedup_cell (snd (dedup_cell fr))) = snd (dedup_cell fr)
   \<and> fst (dedup_cell (snd (dedup_cell fr))) = 0"
proof
  show "snd (dedup_cell (snd (dedup_cell fr))) = snd (dedup_cell fr)"
    using kept_first_absorb [where seen = "{}" and seen' = "{}" and fr = fr] by (simp add: dedup_cell_def drop_duplicates_def)
  show "fst (dedup_cell (snd (dedup_cell fr))) = 0"
    using all_duplicates_kept_first [where fr = fr] by (simp add: dedup_cell_def drop_duplicates_def)
qed

section \<open>Properties of the summary statistics\<close>

lemma series_mode_props:
  assumes "dropna c \<noteq> []"
  defines "vs \<equiv> dropna c"
  shows "series_mode c \<noteq> []"
    and "hd (series_mode c) \<in> set vs"
    and "\<forall>v\<in>set vs. count_list vs v \<le> count_list vs (hd (series_mode c))"
    and "\<forall>v\<in>set vs. count_list vs v = count_list vs (hd (series_mode c)) \<longrightarrow>
           hd (series_mode c) \<le> v"
proof -
  let ?M = "Max (set (map (count_list vs) vs))"
  let ?cand = "filter (\<lambda>v. count_list vs v = ?M) vs"
  have ne: "set (map (count_list vs) vs) \<noteq> {}"
    using assms by simp
  have "?M \<in> set (map (count_list vs) vs)"
    using ne by (intro Max_in) simp_all
  then obtain w where w: "w \<in> set vs" "count_list vs w = ?M"
    by auto
  then have cne: "set ?cand \<noteq> {}"
    by auto
  have sm: "series_mode c = sort (remdups ?cand)"
    by (simp add: series_mode_def vs_def Let_def)
  have set_sm: "set (series_mode c) = set ?cand"
    by (simp add: sm)
  show 1: "series_mode c \<noteq> []"
    using cne set_sm by auto
  have hd_in: "hd (series_mode c) \<in> set ?cand"
    using 1 set_sm hd_in_set by blast
  then show "hd (series_mode c) \<in> set vs"
    by simp
  have hM: "count_list vs (hd (series_mode c)) = ?M"
    using hd_in by simp
  show "\<forall>v\<in>set vs. count_list vs v \<le> count_list vs (hd (series_mode c))"
    unfolding hM by (auto intro!: Max_ge)
  have srt: "sorted (series_mode c)"
    by (simp add: sm)
  have "\<forall>v\<in>set (series_mode c). hd (series_mode c) \<le> v"
    using srt 1 by (cases "series_mode c") auto
  then show "\<forall>v\<in>set vs. count_list vs v = count_list vs (hd (series_mode c)) \<longrightarrow>
      hd (series_mode c) \<le> v"
    unfolding set_sm hM by auto
qed

lemma series_mode_empty: "dropna c = [] \<Longrightarrow> series_mode c = []"
  by (simp add: series_mode_def)

lemma compute_stats_mode:
  "snd (snd (compute_stats fr column)) =
     (if series_mode (map (column \<circ> snd) fr) \<noteq> []
      then Some (hd (series_mode (map (column \<circ> snd) fr))) else None)"
  by (simp add: compute_stats_def Let_def)

text \<open>
  C6, as the code has it. For every column with at least one non-missing value, the mode
  that \<open>compute_stats\<close> returns is a value of the column with the highest occurrence
  count, and among the values with that count it is the smallest (pandas returns the modes
  in ascending order and the code takes the first); for a column with no non-missing value
  the mode is NaN.
\<close>

theorem C6_mode_highest_count_smallest_value:
  fixes fr :: "'r frame" and column :: "'r \<Rightarrow> real option"
  defines "vs \<equiv> dropna (map (column \<circ> snd) fr)"
  defines "mode_val \<equiv> snd (snd (compute_stats fr column))"
  shows "(vs \<noteq> [] \<longrightarrow>
           (\<exists>m. mode_val = Some m \<and> m \<in> set vs
              \<and> (\<forall>v\<in>set vs. count_list vs v \<le> count_list vs m)
              \<and> (\<forall>v\<in>set vs. count_list vs v = count_list vs m \<longrightarrow> m \<le> v)))
       \<and> (vs = [] \<longrightarrow> mode_val = None)"
proof (intro conjI impI)
  assume ne: "vs \<noteq> []"
  let ?c = "map (column \<circ> snd) fr"
  have ne': "dropna ?c \<noteq> []"
    using ne by (simp add: vs_def)
  have "mode_val = Some (hd (series_mode ?c))"
    using series_mode_props(1) [OF ne'] by (simp add: mode_val_def compute_stats_mode)
  then show "\<exists>m. mode_val = Some m \<and> m \<in> set vs
      \<and> (\<forall>v\<in>set vs. count_list vs v \<le> count_list vs m)
      \<and> (\<forall>v\<in>set vs. count_list vs v = count_list vs m \<longrightarrow> m \<le> v)"
    using series_mode_props(2,3,4) [OF ne'] unfolding vs_def by blast
next
  assume "vs = []"
  then show "mode_val = None"
    by (simp add: vs_def mode_val_def compute_stats_mode series_mode_empty)
qed

theorem C6_mode_witness:
  "dropna (map ((\<lambda>x. x) \<circ> snd) ex_col) = [2, 1]
   \<and> snd (snd (compute_stats ex_col (\<lambda>x. x))) = Some 1
   \<and> snd (snd (compute_stats [] (\<lambda>x::real option. x))) = None"
proof -
  have vs: "dropna (map ((\<lambda>x. x) \<circ> snd) ex_col) = [2, 1]"
    by (simp add: dropna_def ex_col_def)
  have "\<exists>m. snd (snd (compute_stats ex_col (\<lambda>x. x))) = Some m \<and> m \<in> set [2, 1]
      \<and> (\<forall>v\<in>set [2, 1 :: real]. count_list [2, 1] v = count_list [2, 1] m \<longrightarrow> m \<le> v)"
    using C6_mode_highest_count_smallest_value [where fr = ex_col and column = "\<lambda>x. x"]
    unfolding vs by blast
  then obtain m :: real where m: "snd (snd (compute_stats ex_col (\<lambda>x. x))) = Some m"
    and mem: "m = 2 \<or> m = 1"
    and tie: "count_list [2, 1 :: real] 1 = count_list [2, 1] m \<longrightarrow> m \<le> 1"
    by auto
  have "m = 1"
  proof (rule ccontr)
    assume "m \<noteq> 1"
    then have "m = 2"
      using mem by simp
    then show False
      using tie by simp
  qed
  then have a: "snd (snd (compute_stats ex_col (\<lambda>x. x))) = Some 1"
    using m by simp
  have b: "snd (snd (compute_stats [] (\<lambda>x::real option. x))) = None"
    using C6_mode_highest_count_smallest_value [where fr = "[]" and column = "\<lambda>x::real option. x"]
    by (simp add: dropna_def)
  show ?thesis
    using vs a b by blast
qed

text \<open>
  The tie-break of the specification fails on the column \<open>[2, 1]\<close>: both values occur
  once, 2 is met first, and the code returns 1.
\<close>

theorem C6_mode_first_encountered_counterexample:
  "snd (snd (compute_stats ex_col (\<lambda>x. x))) = Some 1
   \<and> spec_mode_first_encountered (map ((\<lambda>x. x) \<circ> snd) ex_col) = Some 2"
  by (simp add: compute_stats_def series_mean_def series_median_def series_mode_def
      spec_mode_first_encountered_def dropna_def ex_col_def Let_def)

section \<open>Properties of the Spark pipeline\<close>

subsection \<open>Conditions and filters\<close>

lemma sql_and_True: "(sql_and a b = Some True) = (a = Some True \<and> b = Some True)"
  by (auto simp: sql_and_def)

lemma between_True:
  "(between v lo hi = Some True) = (\<exists>x. v = Some x \<and> lo \<le> x \<and> x \<le> hi)"
  by (auto simp: between_def sql_and_def sql_op_def split: option.splits)

lemma set_filter_rows: "(r \<in> set (filter_rows c d)) = (r \<in> set d \<and> c r = Some True)"
  by (simp add: filter_rows_def)

lemma subseq_filter_rows: "subseq (filter_rows c d) d"
  by (simp add: filter_rows_def)

lemma range_cond_True:
  "(range_cond r = Some True) =
     ((\<exists>x. soil_moisture r = Some x \<and> 0 \<le> x \<and> x \<le> 100) \<and>
      (\<exists>x. soil_water_content r = Some x \<and> 0 \<le> x \<and> x \<le> 100) \<and>
      (\<exists>x. carbon_percent r = Some x \<and> 0 \<le> x \<and> x \<le> 10) \<and>
      (\<exists>x. nitrogen_percent r = Some x \<and> 0 \<le> x \<and> x \<le> 5) \<and>
      (\<exists>x. atmospheric_humidity r = Some x \<and> 0 \<le> x \<and> x \<le> 100) \<and>
      (\<exists>x. temperature r = Some x \<and> 0 \<le> x \<and> x \<le> 40) \<and>
      (\<exists>x. pH r = Some x \<and> 4 \<le> x \<and> x \<le> 9))"
  by (simp only: range_cond_def sql_and_True between_True conj_assoc)

lemma zscore_True:
  "(between (sql_div (sql_op (-) v m) s) (- 3) 3 = Some True) =
     (\<exists>x a b. v = Some x \<and> m = Some a \<and> s = Some b \<and> b \<noteq> 0
        \<and> - 3 \<le> (x - a) / b \<and> (x - a) / b \<le> 3)"
  by (auto simp: between_True sql_div_def sql_op_def split: option.splits if_splits)

lemma stddev_nonneg: "stddev c = Some s \<Longrightarrow> 0 \<le> s"
  by (auto simp: stddev_def Let_def split: if_splits
      intro!: sum_list_nonneg divide_nonneg_nonneg)

lemma mean_moisture_sample:
  "mean_moisture rng d = mean (map soil_moisture (sample rng 0.001 42 d))"
  by (simp add: mean_moisture_def stats_row_def Let_def)

lemma stddev_moisture_sample:
  "stddev_moisture rng d = stddev (map soil_moisture (sample rng 0.001 42 d))"
  by (simp add: stddev_moisture_def stats_row_def Let_def)

subsection \<open>The sample inputs, evaluated\<close>

lemma ex_row_range: "0 \<le> m \<Longrightarrow> m \<le> 100 \<Longrightarrow> 4 \<le> p \<Longrightarrow> p \<le> 9 \<Longrightarrow>
    range_cond (ex_row t m (Some 5) p) = Some True"
  by (simp add: range_cond_True ex_row_def)

lemma ex_sample:
  "sample ex_rng 0.001 42 ex_d =
     [ex_row 1 81 (Some 5) 4, ex_row 2 82 (Some 5) 7, ex_row 3 83 (Some 5) 7]"
  by (simp add: sample_def bernoulli_cell_def ex_d_def ex_rng_def upt_rec)

lemma ex_mean: "mean (map soil_moisture (sample ex_rng 0.001 42 ex_d)) = Some 82"
  unfolding ex_sample by (simp add: mean_def dropna_def ex_row_def)

lemma ex_stddev: "stddev (map soil_moisture (sample ex_rng 0.001 42 ex_d)) = Some 1"
  unfolding ex_sample by (simp add: stddev_def dropna_def ex_row_def Let_def power2_eq_square)

lemma ex_clean:
  "df_clean ex_rng ex_d =
     [ex_row 1 81 (Some 5) 4, ex_row 2 82 (Some 5) 7, ex_row 3 83 (Some 5) 7]"
  unfolding df_clean_def filter_rows_def zscore_True mean_moisture_sample stddev_moisture_sample
    ex_mean ex_stddev
  by (simp add: ex_d_def ex_row_def)

lemma ex_ingest: "df ex_parsed = ex_d"
  by (simp add: df_def filter_rows_def range_cond_True ex_parsed_def ex_d_def ex_row_def)

subsection \<open>Ingestion\<close>

text \<open>
  C3. A row is in the ingestion output exactly when it is a parsed row of the source and
  each of the seven range-checked fields holds a value inside its declared inclusive range:
  soil_moisture, soil_water_content and atmospheric_humidity in [0, 100], carbon_percent
  in [0, 10], nitrogen_percent in [0, 5], temperature in [0, 40], pH in [4, 9]. So every
  output record satisfies every range, and no row violating one appears in the output.
\<close>

theorem C3_ingestion_ranges:
  "(r \<in> set (df parsed)) =
     (r \<in> set parsed \<and>
      (\<exists>x. soil_moisture r = Some x \<and> 0 \<le> x \<and> x \<le> 100) \<and>
      (\<exists>x. soil_water_content r = Some x \<and> 0 \<le> x \<and> x \<le> 100) \<and>
      (\<exists>x. carbon_percent r = Some x \<and> 0 \<le> x \<and> x \<le> 10) \<and>
      (\<exists>x. nitrogen_percent r = Some x \<and> 0 \<le> x \<and> x \<le> 5) \<and>
      (\<exists>x. atmospheric_humidity r = Some x \<and> 0 \<le> x \<and> x \<le> 100) \<and>
      (\<exists>x. temperature r = Some x \<and> 0 \<le> x \<and> x \<le> 40) \<and>
      (\<exists>x. pH r = Some x \<and> 4 \<le> x \<and> x \<le> 9))"
  by (simp only: df_def set_filter_rows range_cond_True)

theorem C3_ingestion_witness:
  "ex_row 2 82 (Some 5) 7 \<in> set (df ex_parsed)
   \<and> ex_row 5 150 (Some 5) 7 \<notin> set (df ex_parsed)
   \<and> ex_row 6 82 None 7 \<notin> set (df ex_parsed)"
  using C3_ingestion_ranges [of "ex_row 2 82 (Some 5) 7" ex_parsed]
    C3_ingestion_ranges [of "ex_row 5 150 (Some 5) 7" ex_parsed]
    C3_ingestion_ranges [of "ex_row 6 82 None 7" ex_parsed]
  by (simp add: ex_parsed_def ex_d_def ex_row_def)

subsection \<open>The anomaly filter\<close>

text \<open>
  C1. With the mean \<open>m\<close> and the standard deviation \<open>s\<close> estimated from the sample of
  the input drawn with fraction 0.001 and seed 42, a row of the input is retained exactly
  when its soil_moisture \<open>v\<close> has a z-score \<open>(v - m) / s\<close> in \<open>[-3, 3]\<close>; the z-score
  exists when \<open>v\<close>, \<open>m\<close> and \<open>s\<close> are not null and \<open>s\<close> is not zero. For a retained
  row this is \<open>\<bar>v - m\<bar> \<le> 3 * s\<close>.
\<close>

theorem C1_outlier_filter_zscore:
  "(r \<in> set (df_clean rng d)) =
     (r \<in> set d \<and>
      (\<exists>v m s. soil_moisture r = Some v
         \<and> mean (map soil_moisture (sample rng 0.001 42 d)) = Some m
         \<and> stddev (map soil_moisture (sample rng 0.001 42 d)) = Some s
         \<and> s \<noteq> 0 \<and> - 3 \<le> (v - m) / s \<and> (v - m) / s \<le> 3))
   \<and> (r \<in> set (df_clean rng d) \<longrightarrow>
      (\<exists>v m s. soil_moisture r = Some v
         \<and> mean (map soil_moisture (sample rng 0.001 42 d)) = Some m
         \<and> stddev (map soil_moisture (sample rng 0.001 42 d)) = Some s
         \<and> \<bar>v - m\<bar> \<le> 3 * s))"
proof (intro conjI impI)
  show iff: "(r \<in> set (df_clean rng d)) =
     (r \<in> set d \<and>
      (\<exists>v m s. soil_moisture r = Some v
         \<and> mean (map soil_moisture (sample rng 0.001 42 d)) = Some m
         \<and> stddev (map soil_moisture (sample rng 0.001 42 d)) = Some s
         \<and> s \<noteq> 0 \<and> - 3 \<le> (v - m) / s \<and> (v - m) / s \<le> 3))"
    by (simp only: df_clean_def set_filter_rows zscore_True mean_moisture_sample
        stddev_moisture_sample)
  assume "r \<in> set (df_clean rng d)"
  then obtain v m s where h: "soil_moisture r = Some v"
      "mean (map soil_moisture (sample rng 0.001 42 d)) = Some m"
      "stddev (map soil_moisture (sample rng 0.001 42 d)) = Some s"
      "s \<noteq> 0" "- 3 \<le> (v - m) / s" "(v - m) / s \<le> 3"
    unfolding iff by blast
  have "0 < s"
    using stddev_nonneg [OF h(3)] h(4) by simp
  then have "\<bar>v - m\<bar> \<le> 3 * s"
    using h(5,6) by (simp add: field_simps abs_le_iff)
  then show "\<exists>v m s. soil_moisture r = Some v
      \<and> mean (map soil_moisture (sample rng 0.001 42 d)) = Some m
      \<and> stddev (map soil_moisture (sample rng 0.001 42 d)) = Some s
      \<and> \<bar>v - m\<bar> \<le> 3 * s"
    using h(1,2,3) by blast
qed

theorem C1_outlier_filter_witness:
  "ex_row 1 81 (Some 5) 4 \<in> set (df_clean ex_rng ex_d)
   \<and> ex_row 4 50 (Some 5) 7 \<notin> set (df_clean ex_rng ex_d)"
  using C1_outlier_filter_zscore [of "ex_row 1 81 (Some 5) 4" ex_rng ex_d]
    C1_outlier_filter_zscore [of "ex_row 4 50 (Some 5) 7" ex_rng ex_d]
  unfolding ex_mean ex_stddev by (simp add: ex_d_def ex_row_def)

lemma filter_rows_mode_Inr:
  "filter_rows_mode (\<lambda>r. Inr (c r)) d = Inr (filter_rows c d)"
  by (induction d) (simp_all add: filter_rows_def)

lemma sql_div_ansi_nonzero: "s \<noteq> Some 0 \<Longrightarrow> sql_div_ansi a s = Inr (sql_div a s)"
  by (auto simp: sql_div_ansi_def sql_div_def split: option.splits)

lemma zscore_cond_off:
  "zscore_cond False m s = (\<lambda>r. Inr (between (sql_div (sql_op (-) (soil_moisture r) m) s) (- 3) 3))"
  by (rule ext) (simp add: zscore_cond_def sql_div_mode_def)

lemma zscore_cond_nonzero:
  "s \<noteq> Some 0 \<Longrightarrow>
    zscore_cond ansi m s = (\<lambda>r. Inr (between (sql_div (sql_op (-) (soil_moisture r) m) s) (- 3) 3))"
  by (rule ext) (simp add: zscore_cond_def sql_div_mode_def sql_div_ansi_nonzero)

lemma df_clean_mode_off: "df_clean_mode False rng d = Inr (df_clean rng d)"
  by (simp add: df_clean_mode_def zscore_cond_off df_clean_def filter_rows_mode_Inr)

lemma df_clean_mode_nonzero:
  "stddev_moisture rng d \<noteq> Some 0 \<Longrightarrow> df_clean_mode ansi rng d = Inr (df_clean rng d)"
  by (simp add: df_clean_mode_def zscore_cond_nonzero df_clean_def filter_rows_mode_Inr)





subsection \<open>Filters only remove rows\<close>

text \<open>
  C10. The output of the anomaly filter and the output of the compound predicate filter
  are subsequences of their input: every output row is an input row, unchanged, none is
  added, and the surviving rows keep the input's order. So when every input row passes
  the ingestion's range condition, every output row of either filter passes it too.
\<close>

theorem C10_filters_only_remove_rows:
  "subseq (df_clean rng d) d \<and> subseq (filtered_df d) d
   \<and> ((\<forall>r\<in>set d. range_cond r = Some True) \<longrightarrow>
        (\<forall>r\<in>set (df_clean rng d). range_cond r = Some True)
      \<and> (\<forall>r\<in>set (filtered_df d). range_cond r = Some True))"
  by (simp add: df_clean_def filtered_df_def subseq_filter_rows set_filter_rows)

theorem C10_filters_witness:
  "list_all (\<lambda>r. range_cond r = Some True) ex_d
   \<and> df_clean ex_rng ex_d \<noteq> [] \<and> subseq (df_clean ex_rng ex_d) ex_d
   \<and> list_all (\<lambda>r. range_cond r = Some True) (df_clean ex_rng ex_d)
   \<and> filtered_df ex_d = [ex_row 1 81 (Some 5) 4] \<and> subseq (filtered_df ex_d) ex_d
   \<and> list_all (\<lambda>r. range_cond r = Some True) (filtered_df ex_d)"
proof -
  have h: "\<forall>r\<in>set ex_d. range_cond r = Some True"
    by (simp add: ex_d_def ex_row_range)
  have f: "filtered_df ex_d = [ex_row 1 81 (Some 5) 4]"
    by (simp add: filtered_df_def filter_rows_def sql_and_def sql_op_def ex_d_def ex_row_def)
  have n: "df_clean ex_rng ex_d \<noteq> []"
    by (simp add: ex_clean)
  show ?thesis
    using h f n C10_filters_only_remove_rows [of ex_rng ex_d] by (simp add: list_all_iff)
qed

subsection \<open>Interpolation\<close>

text \<open>
  C7. The interpolation maps the input row by row, in order. In each output row the
  interpolated carbon value is 0.05 times soil_moisture where carbon_percent is null (null
  when soil_moisture is null as well) and carbon_percent itself otherwise; the eight
  columns of the input row, carbon_percent among them, are unchanged.
\<close>

theorem C7_interpolate_frame:
  "list_all2 (\<lambda>r r'.
       carbon_percent_interp r' =
         (case carbon_percent r of
            None \<Rightarrow> (case soil_moisture r of None \<Rightarrow> None | Some m \<Rightarrow> Some (m * 0.05))
          | Some c \<Rightarrow> Some c)
     \<and> timestamp r' = timestamp r \<and> soil_moisture r' = soil_moisture r
     \<and> soil_water_content r' = soil_water_content r \<and> carbon_percent r' = carbon_percent r
     \<and> nitrogen_percent r' = nitrogen_percent r
     \<and> atmospheric_humidity r' = atmospheric_humidity r
     \<and> temperature r' = temperature r \<and> pH r' = pH r) d (df_interp d)"
  by (simp add: df_interp_def list_all2_map2 list.rel_refl when_otherwise_def isNull_def
      sql_op_def split: option.splits)

subsection \<open>No missing carbon value after ingestion\<close>

text \<open>
  C9. The range filter of the ingestion drops every row with a null carbon_percent, and the
  later stages only remove rows or add a column. So no row of the ingested Dataset, of the
  anomaly-filtered Dataset, of the predicate-filtered Dataset or of the interpolated
  Dataset has a null carbon_percent, and in every row of the interpolated Dataset the
  interpolated value is carbon_percent itself: the null branch is never taken.
\<close>

theorem C9_carbon_never_null_downstream:
  "(\<forall>r\<in>set (df parsed). carbon_percent r \<noteq> None)
   \<and> (\<forall>r\<in>set (df_clean rng (df parsed)). carbon_percent r \<noteq> None)
   \<and> (\<forall>r\<in>set (filtered_df (df_clean rng (df parsed))). carbon_percent r \<noteq> None)
   \<and> (\<forall>r\<in>set (df_interp (df_clean rng (df parsed))).
        carbon_percent r \<noteq> None \<and> carbon_percent_interp r = carbon_percent r)"
proof -
  have a: "carbon_percent r \<noteq> None" if "r \<in> set (df parsed)" for r
    using that by (auto simp: df_def set_filter_rows range_cond_True)
  have b: "r \<in> set (df parsed)" if "r \<in> set (df_clean rng (df parsed))" for r
    using that by (simp add: df_clean_def set_filter_rows)
  have c: "r \<in> set (df_clean rng (df parsed))"
    if "r \<in> set (filtered_df (df_clean rng (df parsed)))" for r
    using that by (simp add: filtered_df_def set_filter_rows)
  have d: "carbon_percent r \<noteq> None \<and> carbon_percent_interp r = carbon_percent r"
    if "r \<in> set (df_interp (df_clean rng (df parsed)))" for r
  proof -
    from that obtain r0 where r0: "r0 \<in> set (df_clean rng (df parsed))"
      and r: "r = \<lparr>timestamp = timestamp r0, soil_moisture = soil_moisture r0,
        soil_water_content = soil_water_content r0, carbon_percent = carbon_percent r0,
        nitrogen_percent = nitrogen_percent r0, atmospheric_humidity = atmospheric_humidity r0,
        temperature = temperature r0, pH = pH r0,
        carbon_percent_interp =
          when_otherwise (isNull (carbon_percent r0))
            (sql_op (*) (soil_moisture r0) (Some 0.05)) (carbon_percent r0)\<rparr>"
      by (auto simp: df_interp_def)
    have "carbon_percent r0 \<noteq> None"
      using a b r0 by blast
    then show ?thesis
      by (auto simp add: r when_otherwise_def isNull_def)
  qed
  show ?thesis
    using a b c d by blast
qed

theorem C9_carbon_never_null_witness:
  "length (df_interp (df_clean ex_rng (df ex_parsed))) = 3
   \<and> list_all (\<lambda>r. carbon_percent r \<noteq> None \<and> carbon_percent_interp r = carbon_percent r)
       (df_interp (df_clean ex_rng (df ex_parsed)))"
proof -
  have "length (df_interp (df_clean ex_rng (df ex_parsed))) = 3"
    by (simp add: ex_ingest ex_clean df_interp_def)
  then show ?thesis
    using C9_carbon_never_null_downstream [of ex_parsed ex_rng] by (simp add: list_all_iff)
qed

subsection \<open>The train/test split\<close>

lemma cell_split_mset:
  fixes a b c :: real
  assumes "a \<le> b" "b \<le> c"
  shows "mset (map fst (filter (\<lambda>(r, x). a \<le> x \<and> x < b) ps)) +
         mset (map fst (filter (\<lambda>(r, x). b \<le> x \<and> x < c) ps)) =
         mset (map fst (filter (\<lambda>(r, x). a \<le> x \<and> x < c) ps))"
  using assms by (induction ps) auto

lemma cell_whole:
  assumes "\<forall>i<length xs. lb \<le> u i \<and> u i < ub"
  shows "bernoulli_cell u lb ub xs = xs"
proof -
  let ?ps = "zip xs (map u [0..<length xs])"
  have "\<forall>p\<in>set ?ps. (\<lambda>(r, x). lb \<le> x \<and> x < ub) p"
    using assms by (auto simp: set_zip)
  then have "filter (\<lambda>(r, x). lb \<le> x \<and> x < ub) ?ps = ?ps"
    by (simp add: filter_id_conv)
  then show ?thesis
    by (simp add: bernoulli_cell_def)
qed

lemma train_test_cells:
  "train_test rng key xs =
     [bernoulli_cell (rng 42) 0 0.8 (sort_key key xs),
      bernoulli_cell (rng 42) 0.8 1 (sort_key key xs)]"
  by (simp add: train_test_def randomSplit_def Let_def)

text \<open>
  C8. When every draw under seed 42 lies in \<open>[0, 1)\<close>, the split returns two Datasets,
  training and test, that together hold every row of the input exactly once (as
  multisets, training plus test is the input): their sizes add up to the input's row count,
  no row is dropped, and when the input rows are pairwise different no row is in both.
  This holds for every sort key. The split is a function of the seed's draws and the
  input, so the same seed on the same input gives the same split.
\<close>

theorem C8_train_test_partition:
  assumes "\<forall>i<length xs. 0 \<le> rng 42 i \<and> rng 42 i < 1"
  shows "\<exists>train test. train_test rng key xs = [train, test]
     \<and> mset train + mset test = mset xs
     \<and> length train + length test = length xs
     \<and> set train \<union> set test = set xs
     \<and> (distinct xs \<longrightarrow> set train \<inter> set test = {})"
proof -
  let ?ys = "sort_key key xs"
  let ?train = "bernoulli_cell (rng 42) 0 0.8 ?ys"
  let ?test = "bernoulli_cell (rng 42) 0.8 1 ?ys"
  have draws: "\<forall>i<length ?ys. 0 \<le> rng 42 i \<and> rng 42 i < 1"
    using assms by simp
  have "mset ?train + mset ?test = mset (bernoulli_cell (rng 42) 0 1 ?ys)"
    unfolding bernoulli_cell_def by (rule cell_split_mset) simp_all
  then have "mset ?train + mset ?test = mset ?ys"
    using cell_whole [OF draws] by simp
  then have m: "mset ?train + mset ?test = mset xs"
    by simp
  then have m': "mset (?train @ ?test) = mset xs"
    by simp
  have l: "length ?train + length ?test = length xs"
    using mset_eq_length [OF m'] by simp
  have s: "set ?train \<union> set ?test = set xs"
    using mset_eq_setD [OF m'] by simp
  have d: "distinct xs \<longrightarrow> set ?train \<inter> set ?test = {}"
    using mset_eq_imp_distinct_iff [OF m'] by auto
  show ?thesis
    using m l s d by (simp add: train_test_cells)
qed

theorem C8_train_test_witness:
  "list_all (\<lambda>i. 0 \<le> ex_rng_split 42 i \<and> ex_rng_split 42 i < 1) [0, 1, 2]
   \<and> (\<exists>train test. train_test ex_rng_split (\<lambda>x. x) [30, 10, 20 :: nat] = [train, test]
        \<and> train \<noteq> [] \<and> test \<noteq> []
        \<and> length train + length test = 3 \<and> set train \<inter> set test = {})"
proof -
  have h: "\<forall>i<length [30, 10, 20 :: nat]. 0 \<le> ex_rng_split 42 i \<and> ex_rng_split 42 i < 1"
    by (simp add: ex_rng_split_def)
  have a: "list_all (\<lambda>i. 0 \<le> ex_rng_split 42 i \<and> ex_rng_split 42 i < 1) [0, 1, 2]"
    by (simp add: ex_rng_split_def)
  obtain train test
    where t: "train_test ex_rng_split (\<lambda>x. x) [30, 10, 20 :: nat] = [train, test]"
    and l: "length train + length test = length [30, 10, 20 :: nat]"
    and d: "distinct [30, 10, 20 :: nat] \<longrightarrow> set train \<inter> set test = {}"
    using C8_train_test_partition
      [where xs = "[30, 10, 20 :: nat]" and rng = ex_rng_split and key = "\<lambda>x. x", OF h]
    by blast
  have "train_test ex_rng_split (\<lambda>x. x) [30, 10, 20 :: nat] = [[10, 30], [20]]"
    by (simp add: train_test_cells bernoulli_cell_def ex_rng_split_def upt_rec)
  then have "train \<noteq> []" "test \<noteq> []"
    using t by auto
  then show ?thesis
    using a t l d by auto
qed

end
